theory Spec2Isabelle
  imports Main
begin

section \<open>Python values and string operations used by the converter\<close>

text \<open>
  The source is \<^verbatim>\<open>src/bitwarden_to_google.py\<close>. A Python \<^verbatim>\<open>str\<close> is modelled as a
  \<^typ>\<open>string\<close>, one \<^typ>\<open>char\<close> per code point, so the model covers the strings over
  the code points 0 to 255. The fields of an entry are annotated \<^verbatim>\<open>str\<close>, but both
  readers store whatever \<^verbatim>\<open>dict.get\<close> returns, which is \<^verbatim>\<open>None\<close> for a JSON
  \<^verbatim>\<open>null\<close> and for a column that a short CSV row does not reach: a field is a
  \<^typ>\<open>string option\<close>, with \<^term>\<open>None\<close> for Python's \<^verbatim>\<open>None\<close>.
\<close>

datatype error =
  ValueError string
| KeyError string
| OSError string
| AttributeError
| TypeError

type_synonym pystr = "string option"

text \<open>Truth value of a field, as \<^verbatim>\<open>if x\<close> and \<^verbatim>\<open>not x\<close> test it.\<close>

fun truthy :: "pystr \<Rightarrow> bool" where
  "truthy None = False"
| "truthy (Some s) = (s \<noteq> [])"

text \<open>\<^verbatim>\<open>str.startswith\<close>, with one prefix and with a tuple of prefixes.\<close>

definition startswith :: "string \<Rightarrow> string \<Rightarrow> bool" where
  "startswith s p = (take (length p) s = p)"

definition startswith_any :: "string \<Rightarrow> string list \<Rightarrow> bool" where
  "startswith_any s ps = list_ex (startswith s) ps"

text \<open>\<^verbatim>\<open>str.split(sep)\<close> for a one-character separator: never an empty list.\<close>

fun py_split :: "char \<Rightarrow> string \<Rightarrow> string list" where
  "py_split sep [] = [[]]"
| "py_split sep (c # cs) =
     (if c = sep then [] # py_split sep cs
      else (case py_split sep cs of
              [] \<Rightarrow> [[c]]
            | x # xs \<Rightarrow> (c # x) # xs))"

text \<open>
  \<^verbatim>\<open>str.strip()\<close> removes the characters for which \<^verbatim>\<open>str.isspace\<close> holds from both
  ends; below code point 256 these are 9 to 13, 28 to 32, 133 and 160.
\<close>

definition isspace :: "char \<Rightarrow> bool" where
  "isspace c = (let n = of_char c :: nat in
     (9 \<le> n \<and> n \<le> 13) \<or> (28 \<le> n \<and> n \<le> 32) \<or> n = 133 \<or> n = 160)"

definition py_strip :: "string \<Rightarrow> string" where
  "py_strip s = rev (dropWhile isspace (rev (dropWhile isspace s)))"

text \<open>
  \<^verbatim>\<open>str.replace(old, new)\<close>: the occurrences of \<^verbatim>\<open>old\<close> are found from the left and
  do not overlap. For an empty \<^verbatim>\<open>old\<close> Python puts \<^verbatim>\<open>new\<close> before every character
  and at the end.
\<close>

fun py_replace :: "string \<Rightarrow> string \<Rightarrow> string \<Rightarrow> string" where
  "py_replace [] new s = new @ concat (map (\<lambda>c. c # new) s)"
| "py_replace (a # as) new [] = []"
| "py_replace (a # as) new (c # cs) =
     (if c = a \<and> take (length as) cs = as
      then new @ py_replace (a # as) new (drop (length as) cs)
      else c # py_replace (a # as) new cs)"

text \<open>\<^verbatim>\<open>str(n)\<close> for an \<^verbatim>\<open>int\<close>, and for the optional counter and a field in an f-string.\<close>

definition digit_char :: "nat \<Rightarrow> char" where
  "digit_char d = char_of (48 + d)"

function str_nat :: "nat \<Rightarrow> string" where
  "str_nat n = (if n < 10 then [digit_char n] else str_nat (n div 10) @ [digit_char (n mod 10)])"
  by pat_completeness auto
termination
  by (relation "measure id") auto

definition str_int :: "int \<Rightarrow> string" where
  "str_int i = (if i < 0 then CHR ''-'' # str_nat (nat (- i)) else str_nat (nat i))"

fun str_counter :: "int option \<Rightarrow> string" where
  "str_counter None = ''None''"
| "str_counter (Some i) = str_int i"

fun str_field :: "pystr \<Rightarrow> string" where
  "str_field None = ''None''"
| "str_field (Some s) = s"

section \<open>PasswordEntry\<close>

record PasswordEntry =
  name :: pystr
  login_uri :: pystr
  login_username :: pystr
  login_password :: pystr
  "notes" :: pystr

text \<open>
  \<^verbatim>\<open>urlparse(uri).netloc\<close> is the standard library's, and what it accepts changes with the
  Python version (the check of a bracketed host, the removal of tabs and line breaks). It
  is a parameter of the model: a function from the candidate to its network location, or
  to the \<^verbatim>\<open>ValueError\<close> that \<^verbatim>\<open>urlparse\<close> raises.
\<close>

type_synonym urlparse_netloc = "string \<Rightarrow> error + string"

definition secure_notes_url :: string where
  "secure_notes_url = ''https://mybitwardensecurenotesdonotdelete.com''"

text \<open>The \<^verbatim>\<open>for uri in uris\<close> loop of \<^verbatim>\<open>format_uri\<close>; \<^verbatim>\<open>whole\<close> is \<^verbatim>\<open>self.login_uri\<close>.\<close>

fun format_uri_loop :: "urlparse_netloc \<Rightarrow> string \<Rightarrow> string list \<Rightarrow> error + string" where
  "format_uri_loop netloc whole [] = Inr (py_replace ''androidapp://'' ''android://@'' whole)"
| "format_uri_loop netloc whole (uri # uris) =
     (if startswith_any uri [''http://'', ''https://''] then
        (case netloc uri of
           Inl err \<Rightarrow> Inl err
         | Inr parsed_netloc \<Rightarrow> Inr (''https://'' @ parsed_netloc))
      else if CHR ''.'' \<in> set uri \<and> \<not> startswith uri ''androidapp://'' then
        Inr (''https://'' @ py_strip uri)
      else format_uri_loop netloc whole uris)"

definition format_uri :: "urlparse_netloc \<Rightarrow> PasswordEntry \<Rightarrow> error + string" where
  "format_uri netloc self =
     (case login_uri self of
        None \<Rightarrow> Inr secure_notes_url
      | Some uri \<Rightarrow>
          if uri = [] then Inr secure_notes_url
          else format_uri_loop netloc uri (py_split CHR '','' uri))"

text \<open>
  The dictionary that \<^verbatim>\<open>to_google_format\<close> returns has the five keys \<^verbatim>\<open>name\<close>,
  \<^verbatim>\<open>url\<close>, \<^verbatim>\<open>username\<close>, \<^verbatim>\<open>password\<close> and \<^verbatim>\<open>note\<close>: one field for each.
\<close>

record google_row =
  row_name :: pystr
  row_url :: pystr
  row_username :: pystr
  row_password :: pystr
  row_note :: pystr

definition to_google_format ::
  "urlparse_netloc \<Rightarrow> PasswordEntry \<Rightarrow> int option \<Rightarrow> error + google_row" where
  "to_google_format netloc self secure_note_counter =
     (case format_uri netloc self of
        Inl err \<Rightarrow> Inl err
      | Inr url \<Rightarrow>
          Inr \<lparr> row_name = name self,
                row_url = Some url,
                row_username =
                  (if truthy (login_username self) then login_username self
                   else Some (str_field (name self) @ '' - row:'' @ str_counter secure_note_counter)),
                row_password =
                  (if truthy (login_password self) then login_password self
                   else Some ''secure_note_password''),
                row_note = notes self \<rparr>)"

section \<open>PasswordManager: the readers\<close>

record PasswordManager =
  entries :: "PasswordEntry list"

text \<open>
  A row of \<^verbatim>\<open>csv.DictReader\<close> maps the names of the header to the fields of the row, and
  to \<^verbatim>\<open>None\<close> where the row is shorter than the header. \<^verbatim>\<open>from_csv\<close> is modelled on
  what opening the file and reading it with \<^verbatim>\<open>csv.DictReader\<close> gives: the rows in file
  order, or the error of \<^verbatim>\<open>open\<close>.
\<close>

type_synonym csv_row = "string \<rightharpoonup> pystr"

definition dict_get :: "('k \<rightharpoonup> 'v) \<Rightarrow> 'k \<Rightarrow> 'v \<Rightarrow> 'v" where
  "dict_get d k dflt = (case d k of None \<Rightarrow> dflt | Some v \<Rightarrow> v)"

definition from_csv_row :: "csv_row \<Rightarrow> PasswordEntry" where
  "from_csv_row row =
     \<lparr> name = dict_get row ''name'' (Some ''''),
       login_uri = dict_get row ''login_uri'' (Some ''''),
       login_username = dict_get row ''login_username'' (Some ''''),
       login_password = dict_get row ''login_password'' (Some ''''),
       notes = dict_get row ''notes'' (Some '''') \<rparr>"

definition from_csv :: "error + csv_row list \<Rightarrow> error + PasswordManager" where
  "from_csv file =
     (case file of
        Inl err \<Rightarrow> Inl err
      | Inr reader \<Rightarrow> Inr \<lparr> entries = map from_csv_row reader \<rparr>)"

text \<open>
  The JSON document is typed as a Bitwarden export: an object whose \<^verbatim>\<open>items\<close> are
  objects with an integer \<^verbatim>\<open>type\<close>, the strings \<^verbatim>\<open>name\<close> and \<^verbatim>\<open>notes\<close>, and the keys
  \<^verbatim>\<open>login\<close> and \<^verbatim>\<open>identity\<close>. A key with a string or a number is absent, \<^verbatim>\<open>null\<close>
  or has a value; \<^verbatim>\<open>uris\<close> is absent, \<^verbatim>\<open>null\<close> or a list. What the source does on a
  \<^verbatim>\<open>login\<close>, an \<^verbatim>\<open>identity\<close> or an element of \<^verbatim>\<open>uris\<close> that is not an object is
  part of the model.
\<close>

datatype 'a jfield = Absent | Null | Val 'a

text \<open>\<^verbatim>\<open>obj.get(key, '')\<close> for a string-valued key.\<close>

fun get_str :: "string jfield \<Rightarrow> pystr" where
  "get_str Absent = Some ''''"
| "get_str Null = None"
| "get_str (Val s) = Some s"

text \<open>
  The value of a key that holds an object, as \<^verbatim>\<open>login\<close> and \<^verbatim>\<open>identity\<close> do: the key
  is missing, its value is \<^verbatim>\<open>null\<close>, its value is of another type that is not an object
  (a string, a number, a list), or its value is an object.
\<close>

datatype 'a jobject = Missing | NullValue | NonObject | Object 'a

text \<open>
  An element of the list \<^verbatim>\<open>uris\<close>: an object with a \<^verbatim>\<open>uri\<close> that is a string or
  \<^verbatim>\<open>null\<close>, an object without the key \<^verbatim>\<open>uri\<close>, or a value that is not an object.
\<close>

datatype uri_element = Uri pystr | NoUriKey | NonObjectElement

record login =
  uris :: "uri_element list jfield"
  username :: "string jfield"
  password :: "string jfield"

record identity =
  firstName :: "string jfield"
  lastName :: "string jfield"
  phone :: "string jfield"
  email :: "string jfield"
  address1 :: "string jfield"
  company :: "string jfield"

record item =
  item_type :: "int jfield"
  item_name :: "string jfield"
  item_notes :: "string jfield"
  item_login :: "login jobject"
  item_identity :: "identity jobject"

record document =
  items :: "item list option"

text \<open>\<^verbatim>\<open>item.get('type') == n\<close>: an absent or \<^verbatim>\<open>null\<close> type equals no number.\<close>

fun type_is :: "int jfield \<Rightarrow> int \<Rightarrow> bool" where
  "type_is (Val t) n = (t = n)"
| "type_is _ n = False"

text \<open>
  \<^verbatim>\<open>item.get('login', {})\<close> and \<^verbatim>\<open>item.get('identity', {})\<close>, as the first
  \<^verbatim>\<open>.get\<close> on the result finds them: a missing key gives the empty dictionary, and on
  \<^verbatim>\<open>None\<close> or another value without a \<^verbatim>\<open>get\<close> method the call raises
  \<^verbatim>\<open>AttributeError\<close>.
\<close>

definition get_login :: "item \<Rightarrow> error + login" where
  "get_login it =
     (case item_login it of
        Missing \<Rightarrow> Inr \<lparr> uris = Absent, username = Absent, password = Absent \<rparr>
      | NullValue \<Rightarrow> Inl AttributeError
      | NonObject \<Rightarrow> Inl AttributeError
      | Object l \<Rightarrow> Inr l)"

definition get_identity :: "item \<Rightarrow> error + identity" where
  "get_identity it =
     (case item_identity it of
        Missing \<Rightarrow> Inr \<lparr> firstName = Absent, lastName = Absent, phone = Absent,
                       email = Absent, address1 = Absent, company = Absent \<rparr>
      | NullValue \<Rightarrow> Inl AttributeError
      | NonObject \<Rightarrow> Inl AttributeError
      | Object i \<Rightarrow> Inr i)"

text \<open>
  \<^verbatim>\<open>uris[0]['uri'] if uris else ""\<close>, for \<^verbatim>\<open>uris = login.get('uris', [])\<close>: the
  subscript raises \<^verbatim>\<open>KeyError\<close> on an object without \<^verbatim>\<open>uri\<close> and \<^verbatim>\<open>TypeError\<close> on
  an element that is not an object.
\<close>

fun first_uri :: "uri_element list jfield \<Rightarrow> error + pystr" where
  "first_uri (Val (Uri u # us)) = Inr u"
| "first_uri (Val (NoUriKey # us)) = Inl (KeyError ''uri'')"
| "first_uri (Val (NonObjectElement # us)) = Inl TypeError"
| "first_uri _ = Inr (Some '''')"

definition newline :: char where
  "newline = CHR 0x0A"

text \<open>The body of the loop over the items.\<close>

definition from_json_item :: "item \<Rightarrow> error + PasswordEntry" where
  "from_json_item it =
     (if type_is (item_type it) 1 then
        (case get_login it of
           Inl err \<Rightarrow> Inl err
         | Inr login \<Rightarrow>
             (case first_uri (uris login) of
                Inl err \<Rightarrow> Inl err
              | Inr uri \<Rightarrow>
                  Inr \<lparr> name = get_str (item_name it),
                        login_uri = uri,
                        login_username = get_str (username login),
                        login_password = get_str (password login),
                        notes = get_str (item_notes it) \<rparr>))
      else if type_is (item_type it) 4 then
        (case get_identity it of
           Inl err \<Rightarrow> Inl err
         | Inr identity \<Rightarrow>
             Inr \<lparr> name = get_str (item_name it),
                   login_uri = Some '''',
                   login_username = Some '''',
                   login_password = Some '''',
                   notes = Some
                     (''Name: '' @ str_field (get_str (firstName identity)) @ '' ''
                        @ str_field (get_str (lastName identity)) @ [newline]
                      @ ''Phone: '' @ str_field (get_str (phone identity)) @ [newline]
                      @ ''Email: '' @ str_field (get_str (email identity)) @ [newline]
                      @ ''Address: '' @ str_field (get_str (address1 identity)) @ [newline]
                      @ ''Company: '' @ str_field (get_str (company identity)) @ [newline]
                      @ ''Notes: '' @ str_field (get_str (item_notes it))) \<rparr>)
      else
        Inr \<lparr> name = get_str (item_name it),
              login_uri = Some '''',
              login_username = Some '''',
              login_password = Some '''',
              notes = get_str (item_notes it) \<rparr>)"

text \<open>
  The loop \<^verbatim>\<open>for item in items\<close>: the entries in the order of the items, or the
  exception of the first item that raises one.
\<close>

fun from_json_loop :: "item list \<Rightarrow> error + PasswordEntry list" where
  "from_json_loop [] = Inr []"
| "from_json_loop (it # its) =
     (case from_json_item it of
        Inl err \<Rightarrow> Inl err
      | Inr entry \<Rightarrow>
          (case from_json_loop its of
             Inl err \<Rightarrow> Inl err
           | Inr rest \<Rightarrow> Inr (entry # rest)))"

text \<open>
  \<^verbatim>\<open>from_json\<close> is modelled on what opening the file and \<^verbatim>\<open>json.load\<close> give: the
  document, or the error of \<^verbatim>\<open>open\<close> or of the parser. \<^verbatim>\<open>data['items']\<close> raises
  \<^verbatim>\<open>KeyError\<close> when the document has no \<^verbatim>\<open>items\<close>.
\<close>

definition from_json :: "error + document \<Rightarrow> error + PasswordManager" where
  "from_json file =
     (case file of
        Inl err \<Rightarrow> Inl err
      | Inr data \<Rightarrow>
          (case items data of
             None \<Rightarrow> Inl (KeyError ''items'')
           | Some its \<Rightarrow>
               (case from_json_loop its of
                  Inl err \<Rightarrow> Inl err
                | Inr es \<Rightarrow> Inr \<lparr> entries = es \<rparr>)))"

section \<open>PasswordManager: the writer\<close>

definition fieldnames :: "string list" where
  "fieldnames = [''name'', ''url'', ''username'', ''password'', ''note'']"

text \<open>
  \<^verbatim>\<open>DictWriter.writerow\<close> takes the values of the dictionary in the order of
  \<^verbatim>\<open>fieldnames\<close>, and the \<^verbatim>\<open>csv\<close> writer writes \<^verbatim>\<open>None\<close> as the empty string. The
  output file is modelled as the list of the rows written to it, the header first.
\<close>

fun csv_field :: "pystr \<Rightarrow> string" where
  "csv_field None = ''''"
| "csv_field (Some s) = s"

definition writerow :: "google_row \<Rightarrow> string list" where
  "writerow r =
     map csv_field [row_name r, row_url r, row_username r, row_password r, row_note r]"

text \<open>
  The loop of \<^verbatim>\<open>to_google_csv\<close>, with the counter as its state. It returns the rows
  written and the exception that ended it, if any: \<^verbatim>\<open>to_google_format\<close> raises what
  \<^verbatim>\<open>urlparse\<close> raises, and the rows written before stay in the file.
\<close>

fun to_google_csv_loop ::
  "urlparse_netloc \<Rightarrow> int \<Rightarrow> PasswordEntry list \<Rightarrow> string list list \<times> error option" where
  "to_google_csv_loop netloc secure_note_counter [] = ([], None)"
| "to_google_csv_loop netloc secure_note_counter (entry # rest) =
     (if \<not> truthy (login_uri entry) \<and> \<not> truthy (login_username entry) then
        (case to_google_format netloc entry (Some secure_note_counter) of
           Inl err \<Rightarrow> ([], Some err)
         | Inr row \<Rightarrow>
             (case to_google_csv_loop netloc (secure_note_counter + 1) rest of
                (rows, raised) \<Rightarrow> (writerow row # rows, raised)))
      else
        (case to_google_format netloc entry None of
           Inl err \<Rightarrow> ([], Some err)
         | Inr row \<Rightarrow>
             (case to_google_csv_loop netloc secure_note_counter rest of
                (rows, raised) \<Rightarrow> (writerow row # rows, raised))))"

definition to_google_csv ::
  "urlparse_netloc \<Rightarrow> PasswordManager \<Rightarrow> string list list \<times> error option" where
  "to_google_csv netloc self =
     (case to_google_csv_loop netloc 1 (entries self) of
        (rows, raised) \<Rightarrow> (fieldnames # rows, raised))"

section \<open>main\<close>

text \<open>\<^verbatim>\<open>str.lower()\<close> below code point 256: A to Z, and 192 to 222 without 215.\<close>

definition lower_char :: "char \<Rightarrow> char" where
  "lower_char c = (let n = of_char c :: nat in
     if (65 \<le> n \<and> n \<le> 90) \<or> (192 \<le> n \<and> n \<le> 222 \<and> n \<noteq> 215) then char_of (n + 32) else c)"

definition py_lower :: "string \<Rightarrow> string" where
  "py_lower s = map lower_char s"

text \<open>
  What \<^verbatim>\<open>main\<close> takes from the standard library and from the file system:
  \<^verbatim>\<open>Path(p).suffix\<close>, \<^verbatim>\<open>urlparse(u).netloc\<close>, and for a path what opening it and
  reading it with \<^verbatim>\<open>csv.DictReader\<close> or with \<^verbatim>\<open>json.load\<close> gives. The output file is
  taken to open.
\<close>

record env =
  path_suffix :: "string \<Rightarrow> string"
  netloc_of :: urlparse_netloc
  open_csv :: "string \<Rightarrow> error + csv_row list"
  open_json :: "string \<Rightarrow> error + document"

text \<open>
  The file operations and the output of a run, in order: the input file opened for
  reading, the output file opened for writing and left with these rows, the confirmation
  printed for this output path.
\<close>

datatype io_event =
  OpenRead string
| OpenWrite string "string list list"
| PrintSaved string

text \<open>The end of \<^verbatim>\<open>main\<close>, after the reader was chosen and called.\<close>

definition main_export ::
  "env \<Rightarrow> string \<Rightarrow> string \<Rightarrow> error + PasswordManager \<Rightarrow> io_event list \<times> error option" where
  "main_export e input output loaded =
     (case loaded of
        Inl err \<Rightarrow> ([OpenRead input], Some err)
      | Inr manager \<Rightarrow>
          (case to_google_csv (netloc_of e) manager of
             (rows, Some err) \<Rightarrow> ([OpenRead input, OpenWrite output rows], Some err)
           | (rows, None) \<Rightarrow>
               ([OpenRead input, OpenWrite output rows, PrintSaved output], None)))"

definition unsupported :: error where
  "unsupported = ValueError ''Unsupported file format. Please provide a CSV or JSON file.''"

definition main :: "env \<Rightarrow> string \<Rightarrow> string \<Rightarrow> io_event list \<times> error option" where
  "main e input output =
     (let file_extension = py_lower (path_suffix e input) in
      if file_extension = ''.csv'' then
        main_export e input output (from_csv (open_csv e input))
      else if file_extension = ''.json'' then
        main_export e input output (from_json (open_json e input))
      else ([], Some unsupported))"

section \<open>The library on examples\<close>

text \<open>
  For the examples, the two library functions as CPython computes them. The network
  location follows \<^verbatim>\<open>urllib.parse.urlsplit\<close>: leading control characters and spaces and
  all tabs and line breaks are removed, the scheme is split off at the first colon, and
  after \<^verbatim>\<open>//\<close> the network location runs to the first of \<^verbatim>\<open>/ ? #\<close>; one square
  bracket without the other raises \<^verbatim>\<open>ValueError\<close>. What CPython checks further on a
  bracketed host and on a network location outside ASCII is not part of it, and the
  examples use neither.
\<close>

definition scheme_char :: "char \<Rightarrow> bool" where
  "scheme_char c = (let n = of_char c :: nat in
     (97 \<le> n \<and> n \<le> 122) \<or> (65 \<le> n \<and> n \<le> 90) \<or> (48 \<le> n \<and> n \<le> 57)
       \<or> c = CHR ''+'' \<or> c = CHR ''-'' \<or> c = CHR ''.'')"

definition ascii_alpha :: "char \<Rightarrow> bool" where
  "ascii_alpha c = (let n = of_char c :: nat in (97 \<le> n \<and> n \<le> 122) \<or> (65 \<le> n \<and> n \<le> 90))"

definition cpython_netloc :: urlparse_netloc where
  "cpython_netloc url0 =
     (let url = filter (\<lambda>c. c \<noteq> CHR 0x09 \<and> c \<noteq> CHR 0x0D \<and> c \<noteq> CHR 0x0A)
                  (dropWhile (\<lambda>c. (of_char c :: nat) \<le> 32) url0);
          scheme = takeWhile (\<lambda>c. c \<noteq> CHR '':'') url;
          rest = (if CHR '':'' \<in> set url \<and> scheme \<noteq> [] \<and> ascii_alpha (hd url)
                     \<and> list_all scheme_char scheme
                  then drop (length scheme + 1) url else url)
      in if take 2 rest = ''//'' then
           (let netloc = takeWhile (\<lambda>c. c \<noteq> CHR ''/'' \<and> c \<noteq> CHR ''?'' \<and> c \<noteq> CHR ''#'') (drop 2 rest)
            in if (CHR ''['' \<in> set netloc) \<noteq> (CHR '']'' \<in> set netloc)
               then Inl (ValueError ''Invalid IPv6 URL'')
               else Inr netloc)
         else Inr [])"

text \<open>
  \<^verbatim>\<open>PurePosixPath(p).suffix\<close>: the name is the last part of the path that is neither
  empty nor a single dot, and the suffix starts at the last dot of the name, unless that
  dot is the first or the last character of the name.
\<close>

definition posix_name :: "string \<Rightarrow> string" where
  "posix_name p =
     (case rev (filter (\<lambda>x. x \<noteq> [] \<and> x \<noteq> ''.'') (py_split CHR ''/'' p)) of
        [] \<Rightarrow> []
      | n # _ \<Rightarrow> n)"

definition posix_suffix :: "string \<Rightarrow> string" where
  "posix_suffix p =
     (let name = posix_name p;
          after = rev (takeWhile (\<lambda>c. c \<noteq> CHR ''.'') (rev name))
      in if CHR ''.'' \<in> set name \<and> after \<noteq> [] \<and> Suc (length after) < length name
         then CHR ''.'' # after else [])"

section \<open>The specification's rules\<close>

text \<open>
  The two rules of URI canonicalization, tried on a candidate in this order, and
  \<^verbatim>\<open>sep.join(parts)\<close>, with which splitting and replacing are stated: the candidates
  are the parts of the URI between its commas, and replacing every \<^verbatim>\<open>androidapp://\<close>
  puts \<^verbatim>\<open>android://@\<close> between the parts that the occurrences separate.
\<close>

definition scheme_rule :: "string \<Rightarrow> bool" where
  "scheme_rule c = (take 7 c = ''http://'' \<or> take 8 c = ''https://'')"

definition dot_rule :: "string \<Rightarrow> bool" where
  "dot_rule c = (CHR ''.'' \<in> set c \<and> take 13 c \<noteq> ''androidapp://'')"

fun join :: "string \<Rightarrow> string list \<Rightarrow> string" where
  "join sep [] = []"
| "join sep [p] = p"
| "join sep (p # q # ps) = p @ sep @ join sep (q # ps)"

text \<open>
  A secure note is an entry whose \<^verbatim>\<open>login_uri\<close> and \<^verbatim>\<open>login_username\<close> are both empty;
  \<open>secure_note_number es i\<close> is one more than the number of secure notes before position
  \<open>i\<close>, which is \<open>k\<close> when the entry at \<open>i\<close> is the \<open>k\<close>-th secure note of \<open>es\<close>.
\<close>

definition is_secure_note :: "PasswordEntry \<Rightarrow> bool" where
  "is_secure_note e = (\<not> truthy (login_uri e) \<and> \<not> truthy (login_username e))"

definition secure_note_number :: "PasswordEntry list \<Rightarrow> nat \<Rightarrow> int" where
  "secure_note_number es i = 1 + int (length (filter is_secure_note (take i es)))"

text \<open>A field that is the empty string or not there at all.\<close>

definition empty_field :: "string jfield \<Rightarrow> bool" where
  "empty_field f = (f = Absent \<or> f = Val '''')"

text \<open>A column of a CSV row that is missing, cut off by a short row, or empty.\<close>

definition empty_column :: "csv_row \<Rightarrow> string \<Rightarrow> bool" where
  "empty_column row c = (row c = None \<or> row c = Some None \<or> row c = Some (Some ''''))"

text \<open>
  Equality up to the case of ASCII letters, against a lower-case word: each character is
  the character of the word, or the capital of it when that is a letter from a to z.
\<close>

definition same_letter :: "char \<Rightarrow> char \<Rightarrow> bool" where
  "same_letter a b =
     (a = b \<or> (97 \<le> (of_char b :: nat) \<and> (of_char b :: nat) \<le> 122
                \<and> (of_char a :: nat) + 32 = of_char b))"

definition equal_ignoring_case :: "string \<Rightarrow> string \<Rightarrow> bool" where
  "equal_ignoring_case s t = list_all2 same_letter s t"

section \<open>Example inputs\<close>

text \<open>
  A file system with a CSV export of one secure note and a JSON export of one identity,
  on a POSIX system.
\<close>

definition example_env :: env where
  "example_env =
     \<lparr> path_suffix = posix_suffix,
       netloc_of = cpython_netloc,
       open_csv = (\<lambda>p. if p = ''vault/export.CSV''
                        then Inr [[''name'' \<mapsto> Some ''Foo'', ''login_uri'' \<mapsto> Some '''',
                                   ''login_username'' \<mapsto> Some '''',
                                   ''login_password'' \<mapsto> Some '''', ''notes'' \<mapsto> Some '''']]
                        else Inl (OSError ''No such file or directory'')),
       open_json = (\<lambda>p. if p = ''vault/export.json''
                         then Inr \<lparr> items = Some
                                [\<lparr> item_type = Val 4, item_name = Val ''Me'', item_notes = Absent,
                                   item_login = Missing,
                                   item_identity = Object
                                     \<lparr> firstName = Val ''Jane'', lastName = Val ''Doe'',
                                       phone = Absent, email = Val '''', address1 = Absent,
                                       company = Val '''' \<rparr> \<rparr>] \<rparr>
                         else Inl (OSError ''No such file or directory'')) \<rparr>"

section \<open>URI canonicalization\<close>

lemma scheme_rule_startswith:
  "scheme_rule c = (startswith c ''http://'' \<or> startswith c ''https://'')"
  by (simp add: scheme_rule_def startswith_def numeral_eq_Suc)

lemma dot_rule_startswith:
  "dot_rule c = (CHR ''.'' \<in> set c \<and> \<not> startswith c ''androidapp://'')"
  by (simp add: dot_rule_def startswith_def numeral_eq_Suc)

lemma startswith_any_scheme:
  "startswith_any uri [''http://'', ''https://''] = scheme_rule uri"
  by (simp add: startswith_any_def scheme_rule_startswith)

lemma format_uri_loop_find:
  "format_uri_loop netloc whole cands =
     (case find (\<lambda>c. scheme_rule c \<or> dot_rule c) cands of
        None \<Rightarrow> Inr (py_replace ''androidapp://'' ''android://@'' whole)
      | Some c \<Rightarrow>
          if scheme_rule c then
            (case netloc c of Inl err \<Rightarrow> Inl err | Inr n \<Rightarrow> Inr (''https://'' @ n))
          else Inr (''https://'' @ py_strip c))"
proof (induction cands)
  case Nil
  show ?case by simp
next
  case (Cons uri cands)
  show ?case
  proof (cases "scheme_rule uri")
    case True
    then show ?thesis
      by (cases "netloc uri") (simp_all add: startswith_any_scheme)
  next
    case False
    then show ?thesis
      using Cons.IH by (simp add: startswith_any_scheme dot_rule_startswith)
  qed
qed

text \<open>Splitting: the parts joined by the separator are the string, and no part has it.\<close>

lemma py_split_join:
  "py_split sep s \<noteq> [] \<and> join [sep] (py_split sep s) = s
     \<and> (\<forall>c \<in> set (py_split sep s). sep \<notin> set c)"
proof (induction s)
  case Nil
  show ?case by simp
next
  case (Cons c s)
  obtain x xs where split: "py_split sep s = x # xs"
    using Cons.IH by (cases "py_split sep s") auto
  show ?case
  proof (cases "c = sep")
    case True
    with Cons.IH split show ?thesis by simp
  next
    case False
    with Cons.IH split show ?thesis
      by (cases xs) auto
  qed
qed

text \<open>
  Trimming: the result is the string without a run of whitespace at each end, and it
  neither starts nor ends with whitespace.
\<close>

lemma py_strip_trim:
  "\<exists>l r. c = l @ py_strip c @ r \<and> (\<forall>x \<in> set l. isspace x) \<and> (\<forall>x \<in> set r. isspace x)
     \<and> (py_strip c \<noteq> [] \<longrightarrow> \<not> isspace (hd (py_strip c)) \<and> \<not> isspace (last (py_strip c)))"
proof -
  let ?l = "takeWhile isspace c"
  let ?m = "dropWhile isspace c"
  let ?r = "rev (takeWhile isspace (rev ?m))"
  let ?t = "rev (dropWhile isspace (rev ?m))"
  have t: "py_strip c = ?t" by (simp add: py_strip_def)
  have "?t @ ?r = rev (takeWhile isspace (rev ?m) @ dropWhile isspace (rev ?m))"
    by (simp only: rev_append)
  also have "\<dots> = rev (rev ?m)"
    by (simp only: takeWhile_dropWhile_id)
  finally have m: "?m = ?t @ ?r" by simp
  have c: "c = ?l @ ?t @ ?r"
    using m takeWhile_dropWhile_id [of isspace c] by simp
  have l: "\<forall>x \<in> set ?l. isspace x" by (auto dest: set_takeWhileD)
  have r: "\<forall>x \<in> set ?r. isspace x" by (auto dest: set_takeWhileD)
  have ends: "?t \<noteq> [] \<longrightarrow> \<not> isspace (hd ?t) \<and> \<not> isspace (last ?t)"
  proof
    assume ne: "?t \<noteq> []"
    then have "dropWhile isspace (rev ?m) \<noteq> []" by simp
    then have "\<not> isspace (hd (dropWhile isspace (rev ?m)))" by (rule hd_dropWhile)
    with ne have last: "\<not> isspace (last ?t)" by (simp add: last_rev)
    from ne m have "?m \<noteq> []" by (metis append_is_Nil_conv)
    then have "\<not> isspace (hd ?m)" by (rule hd_dropWhile)
    moreover from ne m have "hd ?m = hd ?t" by (metis hd_append2)
    ultimately show "\<not> isspace (hd ?t) \<and> \<not> isspace (last ?t)" using last by simp
  qed
  from c l r ends t show ?thesis by metis
qed

lemma join_Cons_prefix: "\<exists>rest. join sep (p # ps) = p @ rest"
  by (cases ps) auto

lemma join_Cons_Cons: "join sep ((c # p) # ps) = c # join sep (p # ps)"
  by (cases ps) auto

lemma join_Nil_Cons: "ps \<noteq> [] \<Longrightarrow> join sep ([] # ps) = sep @ join sep ps"
  by (cases ps) auto

text \<open>
  Replacing: the string is cut at occurrences of \<open>old\<close> into parts in which \<open>old\<close> does
  not occur, and the result has \<open>new\<close> between the parts instead.
\<close>

lemma py_replace_pieces:
  "old \<noteq> [] \<Longrightarrow>
     \<exists>pieces. pieces \<noteq> [] \<and> s = join old pieces
       \<and> (\<forall>p \<in> set pieces. \<forall>u v. p \<noteq> u @ old @ v)
       \<and> py_replace old new s = join new pieces"
proof (induction old new s rule: py_replace.induct)
  case (1 new s)
  then show ?case by simp
next
  case (2 a as new)
  have "[[]] \<noteq> [] \<and> [] = join (a # as) [[]]
       \<and> (\<forall>p \<in> set [[]]. \<forall>u v. p \<noteq> u @ (a # as) @ v)
       \<and> py_replace (a # as) new [] = join new [[]]"
    by simp
  then show ?case by blast
next
  case (3 a as new c cs)
  show ?case
  proof (cases "c = a \<and> take (length as) cs = as")
    case True
    from "3.IH"(1) [OF True] obtain pieces where
      ne: "pieces \<noteq> []" and
      s: "drop (length as) cs = join (a # as) pieces" and
      free: "\<forall>p \<in> set pieces. \<forall>u v. p \<noteq> u @ (a # as) @ v" and
      r: "py_replace (a # as) new (drop (length as) cs) = join new pieces"
      by auto
    from True have "c # cs = (a # as) @ drop (length as) cs"
      by (metis append_Cons append_take_drop_id)
    with s ne have "c # cs = join (a # as) ([] # pieces)"
      by (simp add: join_Nil_Cons)
    moreover from True r ne have "py_replace (a # as) new (c # cs) = join new ([] # pieces)"
      by (simp add: join_Nil_Cons)
    moreover from free have "\<forall>p \<in> set ([] # pieces). \<forall>u v. p \<noteq> u @ (a # as) @ v"
      by simp
    ultimately show ?thesis
      by (intro exI [of _ "[] # pieces"]) simp
  next
    case False
    from "3.IH"(2) [OF False] obtain pieces where
      ne: "pieces \<noteq> []" and
      s: "cs = join (a # as) pieces" and
      free: "\<forall>p \<in> set pieces. \<forall>u v. p \<noteq> u @ (a # as) @ v" and
      r: "py_replace (a # as) new cs = join new pieces"
      by auto
    from ne obtain p ps where pieces: "pieces = p # ps" by (cases pieces) auto
    have head: "\<forall>u v. c # p \<noteq> u @ (a # as) @ v"
    proof (intro allI notI)
      fix u v
      assume eq: "c # p = u @ (a # as) @ v"
      show False
      proof (cases u)
        case Nil
        with eq have c: "c = a" and p: "p = as @ v" by simp_all
        from join_Cons_prefix [of "a # as" p ps] s pieces obtain rest where "cs = p @ rest"
          by auto
        with p have "take (length as) cs = as" by simp
        with c False show False by simp
      next
        case (Cons x u')
        with eq have "p = u' @ (a # as) @ v" by simp
        with free pieces show False by auto
      qed
    qed
    from s pieces have "c # cs = join (a # as) ((c # p) # ps)"
      by (simp add: join_Cons_Cons)
    moreover from False r pieces
    have "py_replace (a # as) new (c # cs) = join new ((c # p) # ps)"
      by (auto simp: join_Cons_Cons)
    moreover from head free pieces
    have "\<forall>q \<in> set ((c # p) # ps). \<forall>u v. q \<noteq> u @ (a # as) @ v"
      by simp
    ultimately show ?thesis
      by (intro exI [of _ "(c # p) # ps"]) simp
  qed
qed

text \<open>
  Claim C1, as the code has it. For an entry whose \<^verbatim>\<open>login_uri\<close> is a non-empty string,
  the candidates are the parts of \<^verbatim>\<open>login_uri\<close> between its commas, and \<^verbatim>\<open>format_uri\<close>
  goes by the first candidate that starts with \<^verbatim>\<open>http://\<close> or \<^verbatim>\<open>https://\<close> (the scheme
  rule) or that contains a dot and does not start with \<^verbatim>\<open>androidapp://\<close> (the dot rule).
  Under the scheme rule, which comes first, it returns \<^verbatim>\<open>https://\<close> and the network
  location that \<^verbatim>\<open>urlparse\<close> gives for the candidate, or it raises the \<^verbatim>\<open>ValueError\<close> that
  \<^verbatim>\<open>urlparse\<close> raises on the candidate. Under the dot rule it returns \<^verbatim>\<open>https://\<close> and the
  candidate without the whitespace at its two ends. With no such candidate it returns
  \<^verbatim>\<open>login_uri\<close> with \<^verbatim>\<open>android://@\<close> in the place of every \<^verbatim>\<open>androidapp://\<close>.
\<close>

theorem format_uri_first_match:
  assumes "login_uri self = Some uri" and "uri \<noteq> []"
  shows "\<exists>cands. cands \<noteq> [] \<and> uri = join '','' cands \<and> (\<forall>c \<in> set cands. CHR '','' \<notin> set c)
    \<and> (case find (\<lambda>c. scheme_rule c \<or> dot_rule c) cands of
          None \<Rightarrow>
            (\<exists>pieces. pieces \<noteq> [] \<and> uri = join ''androidapp://'' pieces
               \<and> (\<forall>p \<in> set pieces. \<forall>u v. p \<noteq> u @ ''androidapp://'' @ v)
               \<and> format_uri netloc self = Inr (join ''android://@'' pieces))
        | Some c \<Rightarrow>
            if scheme_rule c then
              format_uri netloc self =
                (case netloc c of Inl err \<Rightarrow> Inl err | Inr n \<Rightarrow> Inr (''https://'' @ n))
            else
              (\<exists>l t r. c = l @ t @ r \<and> (\<forall>x \<in> set l. isspace x) \<and> (\<forall>x \<in> set r. isspace x)
                 \<and> (t \<noteq> [] \<longrightarrow> \<not> isspace (hd t) \<and> \<not> isspace (last t))
                 \<and> format_uri netloc self = Inr (''https://'' @ t)))"
proof -
  let ?cands = "py_split CHR '','' uri"
  from assms have f: "format_uri netloc self = format_uri_loop netloc uri ?cands"
    by (simp add: format_uri_def del: py_split.simps)
  note split = py_split_join [of "CHR '',''" uri]
  have rules: "case find (\<lambda>c. scheme_rule c \<or> dot_rule c) ?cands of
          None \<Rightarrow>
            (\<exists>pieces. pieces \<noteq> [] \<and> uri = join ''androidapp://'' pieces
               \<and> (\<forall>p \<in> set pieces. \<forall>u v. p \<noteq> u @ ''androidapp://'' @ v)
               \<and> format_uri netloc self = Inr (join ''android://@'' pieces))
        | Some c \<Rightarrow>
            if scheme_rule c then
              format_uri netloc self =
                (case netloc c of Inl err \<Rightarrow> Inl err | Inr n \<Rightarrow> Inr (''https://'' @ n))
            else
              (\<exists>l t r. c = l @ t @ r \<and> (\<forall>x \<in> set l. isspace x) \<and> (\<forall>x \<in> set r. isspace x)
                 \<and> (t \<noteq> [] \<longrightarrow> \<not> isspace (hd t) \<and> \<not> isspace (last t))
                 \<and> format_uri netloc self = Inr (''https://'' @ t))"
  proof (cases "find (\<lambda>c. scheme_rule c \<or> dot_rule c) ?cands")
    case None
    from py_replace_pieces [of "''androidapp://''" uri "''android://@''"]
    obtain pieces where "pieces \<noteq> []" "uri = join ''androidapp://'' pieces"
      "\<forall>p \<in> set pieces. \<forall>u v. p \<noteq> u @ ''androidapp://'' @ v"
      "py_replace ''androidapp://'' ''android://@'' uri = join ''android://@'' pieces"
      by auto
    with None f show ?thesis
      by (simp only: format_uri_loop_find option.case) blast
  next
    case (Some c)
    show ?thesis
    proof (cases "scheme_rule c")
      case True
      with Some f show ?thesis
        by (simp only: format_uri_loop_find option.case if_True)
    next
      case False
      from py_strip_trim [of c] obtain l r where
        "c = l @ py_strip c @ r" "\<forall>x \<in> set l. isspace x" "\<forall>x \<in> set r. isspace x"
        "py_strip c \<noteq> [] \<longrightarrow> \<not> isspace (hd (py_strip c)) \<and> \<not> isspace (last (py_strip c))"
        by auto
      with Some False f show ?thesis
        by (simp only: format_uri_loop_find option.case if_False) blast
    qed
  qed
  from split rules show ?thesis
    by (intro exI [of _ ?cands]) (simp del: py_split.simps)
qed

theorem format_uri_first_match_witness:
  "login_uri \<lparr> name = Some ''Site'',
       login_uri = Some ''androidapp://com.example,https://example.com/login'',
       login_username = Some ''jane'', login_password = Some ''pw'', notes = Some '''' \<rparr>
     = Some ''androidapp://com.example,https://example.com/login''
   \<and> ''androidapp://com.example,https://example.com/login'' \<noteq> []
   \<and> format_uri cpython_netloc
        \<lparr> name = Some ''Site'',
          login_uri = Some ''androidapp://com.example,https://example.com/login'',
          login_username = Some ''jane'', login_password = Some ''pw'', notes = Some '''' \<rparr>
     = Inr ''https://example.com''
   \<and> format_uri cpython_netloc
        \<lparr> name = Some ''Site'', login_uri = Some ''  example.com ,https://other.example/x'',
          login_username = Some ''jane'', login_password = Some ''pw'', notes = Some '''' \<rparr>
     = Inr ''https://example.com''
   \<and> format_uri cpython_netloc
        \<lparr> name = Some ''Apps'', login_uri = Some ''androidapp://a,androidapp://b'',
          login_username = Some ''jane'', login_password = Some ''pw'', notes = Some '''' \<rparr>
     = Inr ''android://@a,android://@b''
   \<and> format_uri cpython_netloc
        \<lparr> name = Some ''App'', login_uri = Some ''androidapp://com.example'',
          login_username = Some ''jane'', login_password = Some ''pw'', notes = Some '''' \<rparr>
     = Inr ''android://@com.example''"
  using
    format_uri_first_match [of
      "\<lparr> name = Some ''Site'',
         login_uri = Some ''androidapp://com.example,https://example.com/login'',
         login_username = Some ''jane'', login_password = Some ''pw'', notes = Some '''' \<rparr>"
      "''androidapp://com.example,https://example.com/login''" cpython_netloc]
  by (simp add: format_uri_def startswith_any_def startswith_def
        cpython_netloc_def ascii_alpha_def scheme_char_def py_strip_def isspace_def)

text \<open>
  Claim C1 as stated fails: for the \<^verbatim>\<open>login_uri\<close> \<^verbatim>\<open>http://[fe80::1,example.com\<close> the
  first candidate starts with \<^verbatim>\<open>http://\<close>, \<^verbatim>\<open>urlparse\<close> raises \<^verbatim>\<open>ValueError\<close> on its
  unclosed bracket, and \<^verbatim>\<open>format_uri\<close> raises it: nothing is returned, although the
  second candidate matches the dot rule.
\<close>

theorem format_uri_first_match_counterexample:
  "format_uri cpython_netloc
     \<lparr> name = Some ''Printer'', login_uri = Some ''http://[fe80::1,example.com'',
       login_username = Some ''admin'', login_password = Some ''pw'', notes = Some '''' \<rparr>
     = Inl (ValueError ''Invalid IPv6 URL'')"
  by (simp add: format_uri_def startswith_any_def startswith_def
        cpython_netloc_def ascii_alpha_def scheme_char_def)

text \<open>
  Claim C2. For an entry whose \<^verbatim>\<open>login_uri\<close> is the empty string, \<^verbatim>\<open>format_uri\<close> returns
  \<^verbatim>\<open>https://mybitwardensecurenotesdonotdelete.com\<close>, whatever the other fields are and
  whatever the library does.
\<close>

theorem format_uri_empty:
  assumes "login_uri self = Some ''''"
  shows "format_uri netloc self = Inr ''https://mybitwardensecurenotesdonotdelete.com''"
  using assms by (simp add: format_uri_def secure_notes_url_def)

theorem format_uri_empty_witness:
  "login_uri \<lparr> name = Some ''Wifi'', login_uri = Some '''', login_username = Some ''jane'',
       login_password = Some ''pw'', notes = Some ''router'' \<rparr> = Some ''''
   \<and> format_uri cpython_netloc
        \<lparr> name = Some ''Wifi'', login_uri = Some '''', login_username = Some ''jane'',
          login_password = Some ''pw'', notes = Some ''router'' \<rparr>
     = Inr ''https://mybitwardensecurenotesdonotdelete.com''"
  using format_uri_empty [of
      "\<lparr> name = Some ''Wifi'', login_uri = Some '''', login_username = Some ''jane'',
         login_password = Some ''pw'', notes = Some ''router'' \<rparr>" cpython_netloc]
  by simp

text \<open>
  Claim C10. The candidates are not trimmed before the prefix tests. A candidate that
  starts with \<^verbatim>\<open>http://\<close> or \<^verbatim>\<open>https://\<close> has no leading whitespace; a candidate with
  leading whitespace that contains a dot fails both prefix tests, so the dot rule returns
  \<^verbatim>\<open>https://\<close> and the trimmed candidate. For the \<^verbatim>\<open>login_uri\<close>
  \<^verbatim>\<open>foo, https://bar.com\<close> the result is \<^verbatim>\<open>https://https://bar.com\<close>.
\<close>

theorem format_uri_untrimmed_candidate:
  "format_uri netloc (self\<lparr>login_uri := Some ''foo, https://bar.com''\<rparr>)
     = Inr ''https://https://bar.com''
   \<and> (startswith_any uri [''http://'', ''https://''] \<longrightarrow> uri \<noteq> [] \<and> \<not> isspace (hd uri))
   \<and> (isspace w \<and> CHR ''.'' \<in> set (w # rest) \<longrightarrow>
        \<not> startswith_any (w # rest) [''http://'', ''https://'']
        \<and> format_uri_loop netloc whole ((w # rest) # cands)
            = Inr (''https://'' @ py_strip (w # rest)))"
proof (intro conjI impI)
  show "format_uri netloc (self\<lparr>login_uri := Some ''foo, https://bar.com''\<rparr>)
          = Inr ''https://https://bar.com''"
    by (simp add: format_uri_def startswith_any_def startswith_def py_strip_def isspace_def)
next
  assume "startswith_any uri [''http://'', ''https://'']"
  then obtain t where "uri = CHR ''h'' # t"
    by (cases uri) (auto simp: startswith_any_def startswith_def)
  then show "uri \<noteq> []" and "\<not> isspace (hd uri)"
    by (simp_all add: isspace_def)
next
  assume a: "isspace w \<and> CHR ''.'' \<in> set (w # rest)"
  then have w: "w \<noteq> CHR ''h''" "w \<noteq> CHR ''a''"
    by (auto simp: isspace_def)
  then show no_scheme: "\<not> startswith_any (w # rest) [''http://'', ''https://'']"
    by (simp add: startswith_any_def startswith_def)
  from w have "\<not> startswith (w # rest) ''androidapp://''"
    by (simp add: startswith_def)
  with a no_scheme
  show "format_uri_loop netloc whole ((w # rest) # cands) = Inr (''https://'' @ py_strip (w # rest))"
    by simp
qed

theorem format_uri_untrimmed_candidate_witness:
  "startswith_any ''https://bar.com'' [''http://'', ''https://'']
   \<and> \<not> isspace (hd ''https://bar.com'')
   \<and> isspace CHR '' '' \<and> CHR ''.'' \<in> set '' https://bar.com''
   \<and> \<not> startswith_any '' https://bar.com'' [''http://'', ''https://'']
   \<and> format_uri_loop cpython_netloc ''foo, https://bar.com'' ['' https://bar.com'']
       = Inr ''https://https://bar.com''
   \<and> format_uri cpython_netloc
        \<lparr> name = Some ''Bar'', login_uri = Some ''foo, https://bar.com'',
          login_username = Some ''jane'', login_password = Some ''pw'', notes = None \<rparr>
       = Inr ''https://https://bar.com''"
  using format_uri_untrimmed_candidate [of cpython_netloc
      "\<lparr> name = Some ''Bar'', login_uri = None,
         login_username = Some ''jane'', login_password = Some ''pw'', notes = None \<rparr>"
      "''https://bar.com''" "CHR '' ''" "''https://bar.com''" "''foo, https://bar.com''" "[]"]
  by (simp add: startswith_any_def startswith_def isspace_def py_strip_def)

section \<open>The record mapping and the writer\<close>

lemma str_int_1: "str_int 1 = ''1''"
  by code_simp


lemma to_google_format_Inl:
  "to_google_format netloc e counter = Inl err \<longleftrightarrow> format_uri netloc e = Inl err"
  by (simp add: to_google_format_def split: sum.splits)

lemma secure_note_format_uri:
  "is_secure_note e \<Longrightarrow> format_uri netloc e = Inr secure_notes_url"
  by (cases "login_uri e") (auto simp: is_secure_note_def format_uri_def)

lemma secure_note_number_Suc:
  "i < length es \<Longrightarrow>
     secure_note_number es (Suc i) =
       secure_note_number es i + (if is_secure_note (es ! i) then 1 else 0)"
  by (simp add: secure_note_number_def take_Suc_conv_app_nth)

text \<open>One step of the loop, with the two branches of the source read as one.\<close>

lemma loop_Cons:
  "to_google_csv_loop netloc c (e # es) =
     (case to_google_format netloc e (if is_secure_note e then Some c else None) of
        Inl err \<Rightarrow> ([], Some err)
      | Inr row \<Rightarrow>
          (case to_google_csv_loop netloc (if is_secure_note e then c + 1 else c) es of
             (rows, raised) \<Rightarrow> (writerow row # rows, raised)))"
  by (simp add: is_secure_note_def)

lemma loop_length:
  "to_google_csv_loop netloc c es = (rows, raised) \<Longrightarrow> length rows \<le> length es"
proof (induction es arbitrary: c rows raised)
  case Nil
  then show ?case by simp
next
  case (Cons e es)
  from Cons.prems show ?case
    by (auto simp: loop_Cons simp del: to_google_csv_loop.simps split: sum.splits prod.splits
          dest!: Cons.IH)
qed

text \<open>
  The row at position \<open>i\<close> is the row of the entry at \<open>i\<close>, mapped with the start value
  of the counter plus the number of secure notes before \<open>i\<close> when the entry is a secure
  note, and without a counter otherwise.
\<close>

lemma loop_row:
  "to_google_csv_loop netloc c es = (rows, raised) \<Longrightarrow> i < length rows \<Longrightarrow>
     \<exists>row. to_google_format netloc (es ! i)
             (if is_secure_note (es ! i)
              then Some (c + int (length (filter is_secure_note (take i es)))) else None) = Inr row
       \<and> rows ! i = writerow row"
proof (induction es arbitrary: c rows raised i)
  case Nil
  then show ?case by simp
next
  case (Cons e es)
  let ?c' = "if is_secure_note e then c + 1 else c"
  from Cons.prems obtain row rows' where
    fmt: "to_google_format netloc e (if is_secure_note e then Some c else None) = Inr row" and
    rest: "to_google_csv_loop netloc ?c' es = (rows', raised)" and
    rows: "rows = writerow row # rows'"
    by (auto simp: loop_Cons simp del: to_google_csv_loop.simps split: sum.splits prod.splits)
  show ?case
  proof (cases i)
    case 0
    with fmt rows show ?thesis by (auto split: if_splits)
  next
    case (Suc j)
    with Cons.prems(2) rows have "j < length rows'" by simp
    from Cons.IH [OF rest this] Suc rows show ?thesis
      by (auto simp: algebra_simps)
  qed
qed

lemma loop_raised:
  "to_google_csv_loop netloc c es = (rows, Some err) \<Longrightarrow>
     length rows < length es \<and> format_uri netloc (es ! length rows) = Inl err"
proof (induction es arbitrary: c rows)
  case Nil
  then show ?case by simp
next
  case (Cons e es)
  show ?case
  proof (cases "to_google_format netloc e (if is_secure_note e then Some c else None)")
    case (Inl err')
    with Cons.prems have "rows = []" "err' = err"
      by (simp_all add: loop_Cons del: to_google_csv_loop.simps)
    with Inl show ?thesis
      by (simp add: to_google_format_Inl)
  next
    case (Inr row)
    with Cons.prems obtain rows' where
      rest: "to_google_csv_loop netloc (if is_secure_note e then c + 1 else c) es
               = (rows', Some err)" and
      rows: "rows = writerow row # rows'"
      by (auto simp: loop_Cons simp del: to_google_csv_loop.simps split: sum.splits prod.splits)
    from Cons.IH [OF rest] rows show ?thesis by simp
  qed
qed

lemma loop_finished:
  "to_google_csv_loop netloc c es = (rows, None) \<Longrightarrow> length rows = length es"
proof (induction es arbitrary: c rows)
  case Nil
  then show ?case by simp
next
  case (Cons e es)
  from Cons.prems show ?case
    by (auto simp: loop_Cons simp del: to_google_csv_loop.simps split: sum.splits prod.splits
          dest!: Cons.IH)
qed

lemma to_google_csv_split:
  "to_google_csv netloc m = (rows, raised) \<Longrightarrow>
     \<exists>body. rows = fieldnames # body \<and> to_google_csv_loop netloc 1 (entries m) = (body, raised)"
  by (auto simp: to_google_csv_def split: prod.splits)

lemma csv_row_at:
  assumes "to_google_csv netloc m = (rows, raised)" and "Suc i < length rows"
  shows "i < length (entries m) \<and>
     (\<exists>row. to_google_format netloc (entries m ! i)
             (if is_secure_note (entries m ! i)
              then Some (secure_note_number (entries m) i) else None) = Inr row
       \<and> rows ! Suc i = writerow row)"
proof -
  from to_google_csv_split [OF assms(1)] obtain body where
    rows: "rows = fieldnames # body" and
    loop: "to_google_csv_loop netloc 1 (entries m) = (body, raised)"
    by blast
  from assms(2) rows have i: "i < length body" by simp
  with loop_length [OF loop] have "i < length (entries m)" by simp
  moreover from loop_row [OF loop i] rows
  have "\<exists>row. to_google_format netloc (entries m ! i)
             (if is_secure_note (entries m ! i)
              then Some (secure_note_number (entries m) i) else None) = Inr row
       \<and> rows ! Suc i = writerow row"
    by (auto simp: secure_note_number_def split: if_splits)
  ultimately show ?thesis by simp
qed

lemma csv_raised_None_iff:
  assumes "to_google_csv netloc m = (rows, raised)"
  shows "raised = None \<longleftrightarrow> (\<forall>e \<in> set (entries m). \<forall>err. format_uri netloc e \<noteq> Inl err)"
proof
  assume none: "raised = None"
  from to_google_csv_split [OF assms] obtain body where
    loop: "to_google_csv_loop netloc 1 (entries m) = (body, raised)"
    by blast
  from loop none have len: "length body = length (entries m)"
    by (simp add: loop_finished)
  show "\<forall>e \<in> set (entries m). \<forall>err. format_uri netloc e \<noteq> Inl err"
  proof (intro ballI allI notI)
    fix e err
    assume "e \<in> set (entries m)" and bad: "format_uri netloc e = Inl err"
    then obtain i where i: "i < length (entries m)" and e: "entries m ! i = e"
      by (auto simp: in_set_conv_nth)
    from loop_row [OF loop, of i] i len e obtain row c where
      "to_google_format netloc e c = Inr row"
      by auto
    with bad show False
      by (simp add: to_google_format_def)
  qed
next
  assume ok: "\<forall>e \<in> set (entries m). \<forall>err. format_uri netloc e \<noteq> Inl err"
  from to_google_csv_split [OF assms] obtain body where
    loop: "to_google_csv_loop netloc 1 (entries m) = (body, raised)"
    by blast
  show "raised = None"
  proof (cases raised)
    case None
    then show ?thesis .
  next
    case (Some err)
    with loop_raised [of netloc 1 "entries m" body err] loop
    have "length body < length (entries m)"
      and "format_uri netloc (entries m ! length body) = Inl err"
      by simp_all
    with ok show ?thesis
      by (metis nth_mem)
  qed
qed


text \<open>
  Claim C3. The code does not do what the claim says. The writer passes the counter only
  in its secure-note branch and calls \<^verbatim>\<open>to_google_format\<close> without one for every other
  entry, but \<^verbatim>\<open>to_google_format\<close> formats the counter into the placeholder whenever
  \<^verbatim>\<open>login_username\<close> is empty. For the entry named \<^verbatim>\<open>Foo\<close> with the \<^verbatim>\<open>login_uri\<close>
  \<^verbatim>\<open>example.com\<close> and an empty \<^verbatim>\<open>login_username\<close> the username comes out as
  \<^verbatim>\<open>Foo - row:None\<close>: a placeholder is produced for an entry with a non-empty
  \<^verbatim>\<open>login_uri\<close>, and it carries a row suffix with Python's \<^verbatim>\<open>None\<close> in it.
\<close>

theorem to_google_format_without_counter:
  "to_google_format cpython_netloc
     \<lparr> name = Some ''Foo'', login_uri = Some ''example.com'', login_username = Some '''',
       login_password = Some ''pw'', notes = Some '''' \<rparr> None
     = Inr \<lparr> row_name = Some ''Foo'', row_url = Some ''https://example.com'',
             row_username = Some ''Foo - row:None'', row_password = Some ''pw'',
             row_note = Some '''' \<rparr>
   \<and> ''Foo - row:None'' \<noteq> ''Foo''
   \<and> to_google_csv cpython_netloc
       \<lparr> entries = [\<lparr> name = Some ''Foo'', login_uri = Some ''example.com'',
                       login_username = Some '''', login_password = Some ''pw'',
                       notes = Some '''' \<rparr>] \<rparr>
     = ([[''name'', ''url'', ''username'', ''password'', ''note''],
         [''Foo'', ''https://example.com'', ''Foo - row:None'', ''pw'', '''']], None)"
  by (simp add: to_google_format_def format_uri_def startswith_any_def startswith_def
        py_strip_def isspace_def to_google_csv_def fieldnames_def writerow_def)



text \<open>
  Claim C7, as the code has it. The output file begins with the header row
  \<^verbatim>\<open>name,url,username,password,note\<close>. Each row after it is the row of the input record
  at the same position, so the rows are in input order. When \<^verbatim>\<open>format_uri\<close> raises for no
  record, the writer finishes and the header is followed by exactly one row per record.
  When it raises for a record, which happens when \<^verbatim>\<open>urlparse\<close> raises on a candidate,
  the writer stops there with that exception, and the header is followed by the rows of
  the records before the first such record only.
\<close>

theorem to_google_csv_rows:
  assumes "to_google_csv netloc m = (rows, raised)"
  shows "rows \<noteq> [] \<and> hd rows = [''name'', ''url'', ''username'', ''password'', ''note'']
    \<and> length rows \<le> Suc (length (entries m))
    \<and> (\<forall>i. Suc i < length rows \<longrightarrow>
          (\<exists>row. to_google_format netloc (entries m ! i)
                    (if is_secure_note (entries m ! i)
                     then Some (secure_note_number (entries m) i) else None) = Inr row
             \<and> rows ! Suc i = writerow row))
    \<and> (raised = None \<longleftrightarrow> (\<forall>e \<in> set (entries m). \<forall>err. format_uri netloc e \<noteq> Inl err))
    \<and> (raised = None \<longrightarrow> length rows = Suc (length (entries m)))
    \<and> (\<forall>err. raised = Some err \<longrightarrow>
          length rows \<le> length (entries m)
          \<and> format_uri netloc (entries m ! (length rows - 1)) = Inl err)"
proof -
  from to_google_csv_split [OF assms] obtain body where
    rows: "rows = fieldnames # body" and
    loop: "to_google_csv_loop netloc 1 (entries m) = (body, raised)"
    by blast
  from rows have "rows \<noteq> []"
    and "hd rows = [''name'', ''url'', ''username'', ''password'', ''note'']"
    by (simp_all add: fieldnames_def)
  moreover from rows loop_length [OF loop] have "length rows \<le> Suc (length (entries m))"
    by simp
  moreover have "\<forall>i. Suc i < length rows \<longrightarrow>
          (\<exists>row. to_google_format netloc (entries m ! i)
                    (if is_secure_note (entries m ! i)
                     then Some (secure_note_number (entries m) i) else None) = Inr row
             \<and> rows ! Suc i = writerow row)"
    using csv_row_at [OF assms] by blast
  moreover note csv_raised_None_iff [OF assms]
  moreover from rows loop have "raised = None \<longrightarrow> length rows = Suc (length (entries m))"
    by (auto dest: loop_finished)
  moreover from rows loop have "\<forall>err. raised = Some err \<longrightarrow>
          length rows \<le> length (entries m)
          \<and> format_uri netloc (entries m ! (length rows - 1)) = Inl err"
    by (auto dest: loop_raised)
  ultimately show ?thesis by blast
qed

theorem to_google_csv_rows_witness:
  "to_google_csv cpython_netloc
     \<lparr> entries =
         [\<lparr> name = Some ''Site'',
            login_uri = Some ''https://example.com/login,androidapp://com.example'',
            login_username = Some ''jane'', login_password = Some ''pw'', notes = None \<rparr>,
          \<lparr> name = Some ''Router'', login_uri = Some ''http://[fe80::1'',
            login_username = Some ''admin'', login_password = Some ''pw'', notes = Some '''' \<rparr>,
          \<lparr> name = Some ''Beta'', login_uri = Some '''', login_username = Some '''',
            login_password = Some '''', notes = Some ''second'' \<rparr>] \<rparr>
     = ([[''name'', ''url'', ''username'', ''password'', ''note''],
         [''Site'', ''https://example.com'', ''jane'', ''pw'', '''']],
        Some (ValueError ''Invalid IPv6 URL''))
   \<and> to_google_csv cpython_netloc
     \<lparr> entries =
         [\<lparr> name = Some ''Site'',
            login_uri = Some ''https://example.com/login,androidapp://com.example'',
            login_username = Some ''jane'', login_password = Some ''pw'', notes = None \<rparr>,
          \<lparr> name = Some ''Beta'', login_uri = Some '''', login_username = Some '''',
            login_password = Some '''', notes = Some ''second'' \<rparr>] \<rparr>
     = ([[''name'', ''url'', ''username'', ''password'', ''note''],
         [''Site'', ''https://example.com'', ''jane'', ''pw'', ''''],
         [''Beta'', ''https://mybitwardensecurenotesdonotdelete.com'', ''Beta - row:1'',
          ''secure_note_password'', ''second'']], None)"
  using
    to_google_csv_rows [where netloc = cpython_netloc
      and raised = "Some (ValueError ''Invalid IPv6 URL'')"
      and m = "\<lparr> entries =
         [\<lparr> name = Some ''Site'',
            login_uri = Some ''https://example.com/login,androidapp://com.example'',
            login_username = Some ''jane'', login_password = Some ''pw'', notes = None \<rparr>,
          \<lparr> name = Some ''Router'', login_uri = Some ''http://[fe80::1'',
            login_username = Some ''admin'', login_password = Some ''pw'', notes = Some '''' \<rparr>,
          \<lparr> name = Some ''Beta'', login_uri = Some '''', login_username = Some '''',
            login_password = Some '''', notes = Some ''second'' \<rparr>] \<rparr>"
      and rows = "[[''name'', ''url'', ''username'', ''password'', ''note''],
         [''Site'', ''https://example.com'', ''jane'', ''pw'', '''']]"]
    to_google_csv_rows [where netloc = cpython_netloc and raised = None
      and m = "\<lparr> entries =
         [\<lparr> name = Some ''Site'',
            login_uri = Some ''https://example.com/login,androidapp://com.example'',
            login_username = Some ''jane'', login_password = Some ''pw'', notes = None \<rparr>,
          \<lparr> name = Some ''Beta'', login_uri = Some '''', login_username = Some '''',
            login_password = Some '''', notes = Some ''second'' \<rparr>] \<rparr>"
      and rows = "[[''name'', ''url'', ''username'', ''password'', ''note''],
         [''Site'', ''https://example.com'', ''jane'', ''pw'', ''''],
         [''Beta'', ''https://mybitwardensecurenotesdonotdelete.com'', ''Beta - row:1'',
          ''secure_note_password'', ''second'']]"]
  by (simp add: to_google_csv_def to_google_format_def format_uri_def secure_notes_url_def
        fieldnames_def writerow_def str_int_1 startswith_any_def startswith_def
        cpython_netloc_def ascii_alpha_def scheme_char_def)

text \<open>
  Claim C7 as stated fails: for one record whose \<^verbatim>\<open>login_uri\<close> is \<^verbatim>\<open>http://[fe80::1\<close>, on
  which \<^verbatim>\<open>urlparse\<close> raises \<^verbatim>\<open>ValueError\<close> for the unclosed bracket, the writer stops
  after the header: the file has no data row for one input record.
\<close>

theorem to_google_csv_rows_counterexample:
  "to_google_csv cpython_netloc
     \<lparr> entries = [\<lparr> name = Some ''Router'', login_uri = Some ''http://[fe80::1'',
                     login_username = Some ''admin'', login_password = Some ''pw'',
                     notes = Some '''' \<rparr>] \<rparr>
     = ([[''name'', ''url'', ''username'', ''password'', ''note'']],
        Some (ValueError ''Invalid IPv6 URL''))"
  by (simp add: to_google_csv_def to_google_format_def format_uri_def startswith_any_def
        startswith_def cpython_netloc_def ascii_alpha_def scheme_char_def fieldnames_def)

section \<open>The readers\<close>

lemma empty_column_get:
  "empty_column row c \<Longrightarrow>
     dict_get row c (Some '''') = None \<or> dict_get row c (Some '''') = Some ''''"
  by (auto simp: empty_column_def dict_get_def)

lemma identity_notes_lines:
  "py_split newline
     (''Name: Jane Doe'' @ [newline] @ ''Phone: '' @ [newline] @ ''Email: '' @ [newline]
        @ ''Address: '' @ [newline] @ ''Company: '' @ [newline] @ ''Notes: '')
   = [''Name: Jane Doe'', ''Phone: '', ''Email: '', ''Address: '', ''Company: '', ''Notes: '']"
  by (simp add: newline_def)

lemma from_json_loop_nth:
  "from_json_loop its = Inr es \<Longrightarrow>
     length es = length its \<and> (\<forall>i < length its. from_json_item (its ! i) = Inr (es ! i))"
proof (induction its arbitrary: es)
  case Nil
  then show ?case by simp
next
  case (Cons it its)
  from Cons.prems obtain e rest where
    it: "from_json_item it = Inr e" and
    rest: "from_json_loop its = Inr rest" and
    es: "es = e # rest"
    by (auto split: sum.splits)
  from Cons.IH [OF rest] it es show ?case
    by (auto simp: nth_Cons split: nat.splits)
qed

lemma from_json_entries:
  "from_json (Inr \<lparr> items = Some its \<rparr>) = Inr m \<Longrightarrow>
     length (entries m) = length its
       \<and> (\<forall>i < length its. from_json_item (its ! i) = Inr (entries m ! i))"
  using from_json_loop_nth [of its "entries m"]
  by (auto simp: from_json_def split: sum.splits)

lemma non_login_entry:
  assumes "\<not> type_is (item_type it) 1"
    and "\<not> (type_is (item_type it) 4
            \<and> (item_identity it = NullValue \<or> item_identity it = NonObject))"
  shows "\<exists>e. from_json_item it = Inr e \<and> name e = get_str (item_name it)
    \<and> login_uri e = Some '''' \<and> login_username e = Some '''' \<and> login_password e = Some ''''"
  using assms
  by (cases "item_identity it") (auto simp: from_json_item_def get_identity_def)

lemma identity_not_object:
  assumes "type_is (item_type it) 4"
    and "item_identity it = NullValue \<or> item_identity it = NonObject"
  shows "from_json_item it = Inl AttributeError"
proof -
  from assms(1) have "\<not> type_is (item_type it) 1"
    by (cases "item_type it") auto
  with assms show ?thesis
    by (auto simp: from_json_item_def get_identity_def)
qed

text \<open>
  Claim C5. A CSV input with one data row whose \<^verbatim>\<open>name\<close> is \<^verbatim>\<open>Foo\<close> and whose other
  columns are empty (or missing) gives an output of the header and exactly one data row,
  with the sentinel URL as \<^verbatim>\<open>url\<close>, \<^verbatim>\<open>Foo - row:1\<close> as \<^verbatim>\<open>username\<close> and
  \<^verbatim>\<open>secure_note_password\<close> as \<^verbatim>\<open>password\<close>; the writer finishes without an exception.
\<close>

theorem csv_single_note_round_trip:
  assumes "row ''name'' = Some (Some ''Foo'')"
    and "empty_column row ''login_uri''" and "empty_column row ''login_username''"
    and "empty_column row ''login_password''" and "empty_column row ''notes''"
  shows "\<exists>m. from_csv (Inr [row]) = Inr m
    \<and> to_google_csv netloc m =
        ([[''name'', ''url'', ''username'', ''password'', ''note''],
          [''Foo'', ''https://mybitwardensecurenotesdonotdelete.com'', ''Foo - row:1'',
           ''secure_note_password'', '''']], None)"
proof -
  let ?e = "from_csv_row row"
  have nm: "name ?e = Some ''Foo''"
    using assms(1) by (simp add: from_csv_row_def dict_get_def)
  have uri: "\<not> truthy (login_uri ?e)"
    using empty_column_get [OF assms(2)] by (auto simp: from_csv_row_def)
  have user: "\<not> truthy (login_username ?e)"
    using empty_column_get [OF assms(3)] by (auto simp: from_csv_row_def)
  have pw: "\<not> truthy (login_password ?e)"
    using empty_column_get [OF assms(4)] by (auto simp: from_csv_row_def)
  have no_note: "csv_field (notes ?e) = ''''"
    using empty_column_get [OF assms(5)] by (auto simp: from_csv_row_def)
  from uri user have url: "format_uri netloc ?e = Inr secure_notes_url"
    by (simp add: secure_note_format_uri is_secure_note_def)
  have "to_google_csv netloc \<lparr> entries = [?e] \<rparr> =
        ([[''name'', ''url'', ''username'', ''password'', ''note''],
          [''Foo'', ''https://mybitwardensecurenotesdonotdelete.com'', ''Foo - row:1'',
           ''secure_note_password'', '''']], None)"
    using nm uri user pw no_note url str_int_1
    by (simp add: to_google_csv_def to_google_format_def writerow_def fieldnames_def
          secure_notes_url_def)
  then show ?thesis
    by (simp add: from_csv_def)
qed

theorem csv_single_note_round_trip_witness:
  "[''name'' \<mapsto> Some ''Foo'', ''login_uri'' \<mapsto> Some '''', ''login_password'' \<mapsto> None]
      ''name'' = Some (Some ''Foo'')
   \<and> empty_column
        [''name'' \<mapsto> Some ''Foo'', ''login_uri'' \<mapsto> Some '''', ''login_password'' \<mapsto> None]
        ''login_uri''
   \<and> empty_column
        [''name'' \<mapsto> Some ''Foo'', ''login_uri'' \<mapsto> Some '''', ''login_password'' \<mapsto> None]
        ''login_username''
   \<and> empty_column
        [''name'' \<mapsto> Some ''Foo'', ''login_uri'' \<mapsto> Some '''', ''login_password'' \<mapsto> None]
        ''login_password''
   \<and> empty_column
        [''name'' \<mapsto> Some ''Foo'', ''login_uri'' \<mapsto> Some '''', ''login_password'' \<mapsto> None]
        ''notes''
   \<and> (\<exists>m. from_csv (Inr
          [[''name'' \<mapsto> Some ''Foo'', ''login_uri'' \<mapsto> Some '''', ''login_password'' \<mapsto> None]])
          = Inr m
        \<and> to_google_csv cpython_netloc m =
            ([[''name'', ''url'', ''username'', ''password'', ''note''],
              [''Foo'', ''https://mybitwardensecurenotesdonotdelete.com'', ''Foo - row:1'',
               ''secure_note_password'', '''']], None))"
  using csv_single_note_round_trip [of
      "[''name'' \<mapsto> Some ''Foo'', ''login_uri'' \<mapsto> Some '''', ''login_password'' \<mapsto> None]"
      cpython_netloc]
  by (simp add: empty_column_def)

text \<open>
  Claim C6. A JSON item of the Identity type (4) whose identity has the first name
  \<^verbatim>\<open>Jane\<close> and the last name \<^verbatim>\<open>Doe\<close>, with the other identity fields and the notes empty
  or absent, gives an entry with empty \<^verbatim>\<open>login_uri\<close>, \<^verbatim>\<open>login_username\<close> and
  \<^verbatim>\<open>login_password\<close>, whose notes are the six lines \<^verbatim>\<open>Name: Jane Doe\<close>, \<^verbatim>\<open>Phone: \<close>,
  \<^verbatim>\<open>Email: \<close>, \<^verbatim>\<open>Address: \<close>, \<^verbatim>\<open>Company: \<close>, \<^verbatim>\<open>Notes: \<close> in this order, separated by
  line breaks.
\<close>

theorem identity_item_notes:
  assumes "item_type it = Val 4" and "item_identity it = Object idn"
    and "firstName idn = Val ''Jane''" and "lastName idn = Val ''Doe''"
    and "empty_field (phone idn)" and "empty_field (email idn)"
    and "empty_field (address1 idn)" and "empty_field (company idn)"
    and "empty_field (item_notes it)"
  shows "\<exists>text. from_json (Inr \<lparr> items = Some [it] \<rparr>) =
            Inr \<lparr> entries = [\<lparr> name = get_str (item_name it), login_uri = Some '''',
                               login_username = Some '''', login_password = Some '''',
                               notes = Some text \<rparr>] \<rparr>
    \<and> text = ''Name: Jane Doe'' @ [newline] @ ''Phone: '' @ [newline] @ ''Email: '' @ [newline]
               @ ''Address: '' @ [newline] @ ''Company: '' @ [newline] @ ''Notes: ''
    \<and> py_split newline text =
        [''Name: Jane Doe'', ''Phone: '', ''Email: '', ''Address: '', ''Company: '', ''Notes: '']"
proof -
  have empty: "\<And>f. empty_field f \<Longrightarrow> str_field (get_str f) = ''''"
    by (auto simp: empty_field_def)
  have "from_json_item it =
          Inr \<lparr> name = get_str (item_name it), login_uri = Some '''',
            login_username = Some '''', login_password = Some '''',
            notes = Some (''Name: Jane Doe'' @ [newline] @ ''Phone: '' @ [newline]
               @ ''Email: '' @ [newline] @ ''Address: '' @ [newline]
               @ ''Company: '' @ [newline] @ ''Notes: '') \<rparr>"
    using assms(1-4) empty [OF assms(5)] empty [OF assms(6)] empty [OF assms(7)]
      empty [OF assms(8)] empty [OF assms(9)]
    by (simp add: from_json_item_def get_identity_def)
  then show ?thesis
    using identity_notes_lines by (simp add: from_json_def)
qed

theorem identity_item_notes_witness:
  "empty_field Absent \<and> empty_field (Val '''')
   \<and> from_json (Inr \<lparr> items = Some
        [\<lparr> item_type = Val 4, item_name = Val ''Me'', item_notes = Absent,
           item_login = Missing,
           item_identity = Object \<lparr> firstName = Val ''Jane'', lastName = Val ''Doe'',
             phone = Absent, email = Val '''', address1 = Absent, company = Val '''' \<rparr> \<rparr>] \<rparr>)
     = Inr \<lparr> entries =
         [\<lparr> name = Some ''Me'', login_uri = Some '''', login_username = Some '''',
            login_password = Some '''',
            notes = Some (''Name: Jane Doe'' @ [newline] @ ''Phone: '' @ [newline]
               @ ''Email: '' @ [newline] @ ''Address: '' @ [newline]
               @ ''Company: '' @ [newline] @ ''Notes: '') \<rparr>] \<rparr>"
  using identity_item_notes [of
      "\<lparr> item_type = Val 4, item_name = Val ''Me'', item_notes = Absent, item_login = Missing,
         item_identity = Object \<lparr> firstName = Val ''Jane'', lastName = Val ''Doe'',
           phone = Absent, email = Val '''', address1 = Absent, company = Val '''' \<rparr> \<rparr>"
      "\<lparr> firstName = Val ''Jane'', lastName = Val ''Doe'',
         phone = Absent, email = Val '''', address1 = Absent, company = Val '''' \<rparr>"]
  by (simp add: empty_field_def)

text \<open>
  Claim C9, as the code has it. Let an item have a type that is not the Login type (1).
  When it is an Identity item (4) whose \<^verbatim>\<open>identity\<close> is \<^verbatim>\<open>null\<close> or another value that
  is not an object, \<^verbatim>\<open>from_json\<close> raises \<^verbatim>\<open>AttributeError\<close> on it, and so on every
  document that holds it. Otherwise the item gives an entry with the name of the item and
  with empty \<^verbatim>\<open>login_uri\<close>, \<^verbatim>\<open>login_username\<close> and \<^verbatim>\<open>login_password\<close>, whatever login data
  the item carries; mapped with a counter \<open>k\<close> the entry gives the sentinel URL, the
  username \<^verbatim>\<open>{name} - row:{k}\<close> and the password \<^verbatim>\<open>secure_note_password\<close>, and
  \<^verbatim>\<open>to_google_format\<close> does not raise on it. When \<^verbatim>\<open>from_json\<close> returns for the document
  and the writer reaches the entry, its row has these values with the number of the
  secure note as \<open>k\<close>, and the next secure note gets the next number.
\<close>

theorem non_login_item_row:
  assumes "\<not> type_is (item_type it) 1"
  shows "(type_is (item_type it) 4
            \<and> (item_identity it = NullValue \<or> item_identity it = NonObject) \<longrightarrow>
          from_json_item it = Inl AttributeError
          \<and> (\<forall>its. it \<in> set its \<longrightarrow> (\<forall>m. from_json (Inr \<lparr> items = Some its \<rparr>) \<noteq> Inr m)))
    \<and> (\<not> (type_is (item_type it) 4
            \<and> (item_identity it = NullValue \<or> item_identity it = NonObject)) \<longrightarrow>
          (\<exists>e. from_json_item it = Inr e
             \<and> name e = get_str (item_name it)
             \<and> login_uri e = Some '''' \<and> login_username e = Some ''''
             \<and> login_password e = Some ''''
             \<and> to_google_format netloc e (Some k) =
                 Inr \<lparr> row_name = get_str (item_name it),
                       row_url = Some ''https://mybitwardensecurenotesdonotdelete.com'',
                       row_username =
                         Some (str_field (get_str (item_name it)) @ '' - row:'' @ str_int k),
                       row_password = Some ''secure_note_password'',
                       row_note = notes e \<rparr>))
    \<and> (\<forall>its i m rows raised.
          i < length its \<and> its ! i = it \<and> from_json (Inr \<lparr> items = Some its \<rparr>) = Inr m
            \<and> to_google_csv netloc m = (rows, raised) \<and> Suc i < length rows \<longrightarrow>
          length (entries m) = length its
          \<and> from_json_item it = Inr (entries m ! i)
          \<and> rows ! Suc i =
              [csv_field (get_str (item_name it)),
               ''https://mybitwardensecurenotesdonotdelete.com'',
               str_field (get_str (item_name it)) @ '' - row:''
                 @ str_int (secure_note_number (entries m) i),
               ''secure_note_password'',
               csv_field (notes (entries m ! i))]
          \<and> secure_note_number (entries m) (Suc i) = secure_note_number (entries m) i + 1)"
proof (intro conjI impI allI)
  assume bad: "type_is (item_type it) 4
            \<and> (item_identity it = NullValue \<or> item_identity it = NonObject)"
  then show raises: "from_json_item it = Inl AttributeError"
    by (simp add: identity_not_object)
  fix its m
  assume mem: "it \<in> set its"
  show "from_json (Inr \<lparr> items = Some its \<rparr>) \<noteq> Inr m"
  proof
    assume ok: "from_json (Inr \<lparr> items = Some its \<rparr>) = Inr m"
    from mem obtain i where "i < length its" "its ! i = it"
      by (auto simp: in_set_conv_nth)
    with from_json_entries [OF ok] have "from_json_item it = Inr (entries m ! i)"
      by auto
    with raises show False by simp
  qed
next
  assume good: "\<not> (type_is (item_type it) 4
            \<and> (item_identity it = NullValue \<or> item_identity it = NonObject))"
  from non_login_entry [OF assms good] obtain e where
    e: "from_json_item it = Inr e" and
    fields: "name e = get_str (item_name it)" "login_uri e = Some ''''"
      "login_username e = Some ''''" "login_password e = Some ''''"
    by blast
  from fields have "to_google_format netloc e (Some k) =
        Inr \<lparr> row_name = get_str (item_name it),
              row_url = Some ''https://mybitwardensecurenotesdonotdelete.com'',
              row_username = Some (str_field (get_str (item_name it)) @ '' - row:'' @ str_int k),
              row_password = Some ''secure_note_password'',
              row_note = notes e \<rparr>"
    by (simp add: to_google_format_def format_uri_def secure_notes_url_def)
  with e fields
  show "\<exists>e. from_json_item it = Inr e
             \<and> name e = get_str (item_name it)
             \<and> login_uri e = Some '''' \<and> login_username e = Some ''''
             \<and> login_password e = Some ''''
             \<and> to_google_format netloc e (Some k) =
                 Inr \<lparr> row_name = get_str (item_name it),
                       row_url = Some ''https://mybitwardensecurenotesdonotdelete.com'',
                       row_username =
                         Some (str_field (get_str (item_name it)) @ '' - row:'' @ str_int k),
                       row_password = Some ''secure_note_password'',
                       row_note = notes e \<rparr>"
    by blast
next
  fix its i m rows raised
  assume a: "i < length its \<and> its ! i = it \<and> from_json (Inr \<lparr> items = Some its \<rparr>) = Inr m
            \<and> to_google_csv netloc m = (rows, raised) \<and> Suc i < length rows"
  then have ok: "from_json (Inr \<lparr> items = Some its \<rparr>) = Inr m" by simp
  from from_json_entries [OF ok] a have
    len: "length (entries m) = length its" and
    e: "from_json_item it = Inr (entries m ! i)"
    by auto
  let ?e = "entries m ! i"
  have good: "\<not> (type_is (item_type it) 4
            \<and> (item_identity it = NullValue \<or> item_identity it = NonObject))"
    using e identity_not_object [of it] by auto
  from non_login_entry [OF assms good] e have
    fields: "name ?e = get_str (item_name it)" "login_uri ?e = Some ''''"
      "login_username ?e = Some ''''" "login_password ?e = Some ''''"
    by auto
  then have secure: "is_secure_note ?e"
    by (simp add: is_secure_note_def)
  have fmt: "\<And>k. to_google_format netloc ?e (Some k) =
        Inr \<lparr> row_name = get_str (item_name it),
              row_url = Some ''https://mybitwardensecurenotesdonotdelete.com'',
              row_username = Some (str_field (get_str (item_name it)) @ '' - row:'' @ str_int k),
              row_password = Some ''secure_note_password'',
              row_note = notes ?e \<rparr>"
    using fields by (simp add: to_google_format_def format_uri_def secure_notes_url_def)
  from a csv_row_at [of netloc m rows raised i] secure obtain row where
    "to_google_format netloc ?e (Some (secure_note_number (entries m) i)) = Inr row"
    and "rows ! Suc i = writerow row"
    by auto
  then have row: "rows ! Suc i =
              [csv_field (get_str (item_name it)),
               ''https://mybitwardensecurenotesdonotdelete.com'',
               str_field (get_str (item_name it)) @ '' - row:''
                 @ str_int (secure_note_number (entries m) i),
               ''secure_note_password'',
               csv_field (notes (entries m ! i))]"
    by (auto simp: fmt writerow_def)
  from a len secure
  have "secure_note_number (entries m) (Suc i) = secure_note_number (entries m) i + 1"
    using secure_note_number_Suc [of i "entries m"] by simp
  then show "secure_note_number (entries m) (Suc i) = secure_note_number (entries m) i + 1" .
  from len show "length (entries m) = length its" .
  from e show "from_json_item it = Inr (entries m ! i)" .
  from row show "rows ! Suc i =
              [csv_field (get_str (item_name it)),
               ''https://mybitwardensecurenotesdonotdelete.com'',
               str_field (get_str (item_name it)) @ '' - row:''
                 @ str_int (secure_note_number (entries m) i),
               ''secure_note_password'',
               csv_field (notes (entries m ! i))]" .
qed

theorem non_login_item_row_witness:
  "\<not> type_is (item_type
       \<lparr> item_type = Val 2, item_name = Val ''Card'', item_notes = Val ''pin 1234'',
         item_login = Object \<lparr> uris = Val [Uri (Some ''https://bank.example'')],
           username = Val ''jane'', password = Val ''pw'' \<rparr>,
         item_identity = NullValue \<rparr>) 1
   \<and> \<not> type_is (item_type
       \<lparr> item_type = Val 2, item_name = Val ''Card'', item_notes = Val ''pin 1234'',
         item_login = Object \<lparr> uris = Val [Uri (Some ''https://bank.example'')],
           username = Val ''jane'', password = Val ''pw'' \<rparr>,
         item_identity = NullValue \<rparr>) 4
   \<and> (\<exists>m. from_json (Inr \<lparr> items = Some
           [\<lparr> item_type = Val 2, item_name = Val ''Card'', item_notes = Val ''pin 1234'',
              item_login = Object \<lparr> uris = Val [Uri (Some ''https://bank.example'')],
                username = Val ''jane'', password = Val ''pw'' \<rparr>,
              item_identity = NullValue \<rparr>] \<rparr>) = Inr m
        \<and> to_google_csv cpython_netloc m =
            ([[''name'', ''url'', ''username'', ''password'', ''note''],
              [''Card'', ''https://mybitwardensecurenotesdonotdelete.com'', ''Card - row:1'',
               ''secure_note_password'', ''pin 1234'']], None))"
  using non_login_item_row [where netloc = cpython_netloc and k = 1
      and it = "\<lparr> item_type = Val 2, item_name = Val ''Card'', item_notes = Val ''pin 1234'',
           item_login = Object \<lparr> uris = Val [Uri (Some ''https://bank.example'')],
             username = Val ''jane'', password = Val ''pw'' \<rparr>,
           item_identity = NullValue \<rparr>"]
  by (simp add: from_json_def from_json_item_def to_google_csv_def to_google_format_def
        format_uri_def secure_notes_url_def writerow_def fieldnames_def str_int_1)

text \<open>
  Claim C9 as stated fails: an Identity item whose \<^verbatim>\<open>identity\<close> is \<^verbatim>\<open>null\<close> has a type
  that is not the Login type, and \<^verbatim>\<open>from_json\<close> raises \<^verbatim>\<open>AttributeError\<close> on it: no
  record is produced, and no output row.
\<close>

theorem non_login_item_row_counterexample:
  "\<not> type_is (item_type
       \<lparr> item_type = Val 4, item_name = Val ''Me'', item_notes = Absent,
         item_login = Missing, item_identity = NullValue \<rparr>) 1
   \<and> from_json (Inr \<lparr> items = Some
        [\<lparr> item_type = Val 4, item_name = Val ''Me'', item_notes = Absent,
           item_login = Missing, item_identity = NullValue \<rparr>] \<rparr>)
     = Inl AttributeError"
  by (simp add: from_json_def from_json_item_def get_identity_def)

section \<open>The entry point\<close>

lemma of_char_lt: "(of_char (c::char) :: nat) < 256"
  by (metis of_char_mod_256 mod_less_divisor zero_less_numeral)

text \<open>Against a character that is not a capital, \<^verbatim>\<open>lower\<close> compares up to case.\<close>

lemma lower_char_eq:
  assumes "(of_char b :: nat) \<le> 122"
    and "\<not> (65 \<le> (of_char b :: nat) \<and> (of_char b :: nat) \<le> 90)"
  shows "lower_char a = b \<longleftrightarrow> same_letter a b"
proof -
  let ?n = "of_char a :: nat"
  have lt: "?n < 256" by (rule of_char_lt)
  consider (upper) "65 \<le> ?n" "?n \<le> 90"
    | (latin) "192 \<le> ?n" "?n \<le> 222" "?n \<noteq> 215"
    | (other) "\<not> (65 \<le> ?n \<and> ?n \<le> 90)" "\<not> (192 \<le> ?n \<and> ?n \<le> 222 \<and> ?n \<noteq> 215)"
    by blast
  then show ?thesis
  proof cases
    case upper
    then have l: "lower_char a = char_of (?n + 32)"
      by (simp add: lower_char_def)
    have "char_of (?n + 32) = b \<longleftrightarrow> ?n + 32 = of_char b"
    proof
      assume "char_of (?n + 32) = b"
      then have "of_char b = (?n + 32) mod 256" by (auto simp: of_char_of)
      with upper show "?n + 32 = of_char b" by simp
    next
      assume "?n + 32 = of_char b"
      then show "char_of (?n + 32) = b" by simp
    qed
    moreover from upper assms(2) have "a \<noteq> b" by auto
    moreover from upper have "?n + 32 = of_char b \<Longrightarrow> 97 \<le> (of_char b :: nat)" by simp
    ultimately show ?thesis
      using l assms upper by (auto simp: same_letter_def)
  next
    case latin
    then have l: "lower_char a = char_of (?n + 32)"
      by (simp add: lower_char_def)
    have "of_char (char_of (?n + 32) :: char) = (?n + 32) mod 256" by (simp add: of_char_of)
    with latin have "(of_char (char_of (?n + 32) :: char) :: nat) \<ge> 224" by simp
    with assms have "char_of (?n + 32) \<noteq> b" by auto
    moreover from latin assms have "a \<noteq> b" "?n + 32 \<noteq> of_char b" by auto
    ultimately show ?thesis using l by (simp add: same_letter_def)
  next
    case other
    then have l: "lower_char a = a"
      by (auto simp: lower_char_def)
    from other
    have "\<not> (97 \<le> (of_char b :: nat) \<and> (of_char b :: nat) \<le> 122 \<and> ?n + 32 = of_char b)"
      by auto
    with l show ?thesis by (auto simp: same_letter_def)
  qed
qed

lemma py_lower_eq:
  "list_all (\<lambda>b. (of_char b :: nat) \<le> 122
               \<and> \<not> (65 \<le> (of_char b :: nat) \<and> (of_char b :: nat) \<le> 90)) t \<Longrightarrow>
     py_lower s = t \<longleftrightarrow> equal_ignoring_case s t"
proof (induction t arbitrary: s)
  case Nil
  then show ?case by (simp add: py_lower_def equal_ignoring_case_def)
next
  case (Cons b t)
  show ?case
  proof (cases s)
    case Nil
    then show ?thesis by (simp add: py_lower_def equal_ignoring_case_def)
  next
    case (Cons a s')
    with Cons.prems Cons.IH [of s'] show ?thesis
      by (simp add: py_lower_def equal_ignoring_case_def lower_char_eq)
  qed
qed

lemma main_export_opens: "fst (main_export e input output loaded) \<noteq> []"
  by (auto simp: main_export_def split: sum.splits prod.splits option.splits)

lemma main_export_env:
  "netloc_of e' = netloc_of e \<Longrightarrow>
     main_export e' input output loaded = main_export e input output loaded"
  by (auto simp: main_export_def split: sum.splits)

text \<open>
  Claim C8. When the suffix of the input path is, up to case, neither \<^verbatim>\<open>.csv\<close> nor
  \<^verbatim>\<open>.json\<close>, \<^verbatim>\<open>main\<close> raises the \<^verbatim>\<open>ValueError\<close> with the message
  \<^verbatim>\<open>Unsupported file format. Please provide a CSV or JSON file.\<close> and has opened no file
  by then, so no output file exists; and this is the only case in which it opens none.
  Otherwise the suffix selects the reader: \<^verbatim>\<open>from_csv\<close> for \<^verbatim>\<open>.csv\<close>, \<^verbatim>\<open>from_json\<close> for
  \<^verbatim>\<open>.json\<close>, and what the other reader would read from the path does not matter.
\<close>

theorem main_extension_check:
  "(\<not> equal_ignoring_case (path_suffix e input) ''.csv''
      \<and> \<not> equal_ignoring_case (path_suffix e input) ''.json'' \<longrightarrow>
      main e input output =
        ([], Some (ValueError ''Unsupported file format. Please provide a CSV or JSON file.'')))
   \<and> (equal_ignoring_case (path_suffix e input) ''.csv'' \<longrightarrow>
        main e input output = main_export e input output (from_csv (open_csv e input))
        \<and> main (e\<lparr>open_json := other_json\<rparr>) input output = main e input output)
   \<and> (equal_ignoring_case (path_suffix e input) ''.json'' \<longrightarrow>
        main e input output = main_export e input output (from_json (open_json e input))
        \<and> main (e\<lparr>open_csv := other_csv\<rparr>) input output = main e input output)
   \<and> (fst (main e input output) = [] \<longleftrightarrow>
        \<not> equal_ignoring_case (path_suffix e input) ''.csv''
        \<and> \<not> equal_ignoring_case (path_suffix e input) ''.json'')"
proof -
  have csv: "equal_ignoring_case (path_suffix e input) ''.csv''
               \<longleftrightarrow> py_lower (path_suffix e input) = ''.csv''"
    by (subst py_lower_eq) simp_all
  have json: "equal_ignoring_case (path_suffix e input) ''.json''
               \<longleftrightarrow> py_lower (path_suffix e input) = ''.json''"
    by (subst py_lower_eq) simp_all
  show ?thesis
    unfolding csv json
    using main_export_opens [of e input "output"]
    by (auto simp: main_def unsupported_def Let_def
          main_export_env [of "e\<lparr>open_json := other_json\<rparr>" e]
          main_export_env [of "e\<lparr>open_csv := other_csv\<rparr>" e])
qed

theorem main_extension_check_witness:
  "\<not> equal_ignoring_case (path_suffix example_env ''vault/export.txt'') ''.csv''
   \<and> \<not> equal_ignoring_case (path_suffix example_env ''vault/export.txt'') ''.json''
   \<and> main example_env ''vault/export.txt'' ''out.csv'' =
        ([], Some (ValueError ''Unsupported file format. Please provide a CSV or JSON file.''))
   \<and> equal_ignoring_case (path_suffix example_env ''vault/export.CSV'') ''.csv''
   \<and> main example_env ''vault/export.CSV'' ''out.csv'' =
        ([OpenRead ''vault/export.CSV'',
          OpenWrite ''out.csv''
            [[''name'', ''url'', ''username'', ''password'', ''note''],
             [''Foo'', ''https://mybitwardensecurenotesdonotdelete.com'', ''Foo - row:1'',
              ''secure_note_password'', '''']],
          PrintSaved ''out.csv''], None)
   \<and> equal_ignoring_case (path_suffix example_env ''vault/export.json'') ''.json''
   \<and> fst (main example_env ''vault/export.json'' ''out.csv'') \<noteq> []"
  using
    main_extension_check [of example_env "''vault/export.txt''" "''out.csv''"]
    main_extension_check [of example_env "''vault/export.CSV''" "''out.csv''"]
    main_extension_check [of example_env "''vault/export.json''" "''out.csv''"]
  apply (simp add: example_env_def posix_suffix_def posix_name_def equal_ignoring_case_def
          same_letter_def main_export_opens)
  apply (simp add: main_export_def from_csv_def from_csv_row_def dict_get_def to_google_csv_def
          to_google_format_def format_uri_def secure_notes_url_def writerow_def fieldnames_def
          str_int_1)
  done

end
